theory Spec2Isabelle
  imports Complex_Main "HOL-Library.AList"
begin

section \<open>JavaScript values used by the handlers\<close>

subsection \<open>Dates\<close>

text \<open>
  A JavaScript \<open>Date\<close> holds a time value: milliseconds since 1970-01-01T00:00:00Z, or NaN
  (an Invalid Date). A stored, valid date is an \<open>int\<close>; a date that may be invalid is an
  \<open>int option\<close>, with \<open>None\<close> for the Invalid Date. All arithmetic is in UTC, as in
  \<open>setUTCHours\<close> and \<open>toISOString\<close>.
\<close>

definition msPerDay :: int where
  "msPerDay = 86400000"

definition msPerHour :: int where
  "msPerHour = 3600000"

definition msPerMinute :: int where
  "msPerMinute = 60000"

definition msPerSecond :: int where
  "msPerSecond = 1000"

definition Day :: "int \<Rightarrow> int" where
  "Day t = t div msPerDay"

definition MakeTime :: "int \<Rightarrow> int \<Rightarrow> int \<Rightarrow> int \<Rightarrow> int" where
  "MakeTime h m s milli = h * msPerHour + m * msPerMinute + s * msPerSecond + milli"

definition MakeDate :: "int \<Rightarrow> int \<Rightarrow> int" where
  "MakeDate day tm = day * msPerDay + tm"

definition TimeClip :: "int \<Rightarrow> int option" where
  "TimeClip t = (if \<bar>t\<bar> \<le> 8640000000000000 then Some t else None)"

text \<open>
  \<open>d.setUTCHours(hours, minutes, 0, 0)\<close> on a valid date \<open>t\<close>: the UTC day of \<open>t\<close> is
  kept, the time within the day is replaced. A NaN argument gives the Invalid Date.
\<close>

definition setUTCHours :: "int \<Rightarrow> int option \<Rightarrow> int option \<Rightarrow> int option" where
  "setUTCHours t hours minutes =
     (case hours of
        None \<Rightarrow> None
      | Some h \<Rightarrow>
          (case minutes of
             None \<Rightarrow> None
           | Some m \<Rightarrow> TimeClip (MakeDate (Day t) (MakeTime h m 0 0))))"

text \<open>\<open>d > now\<close> on dates compares the time values; a comparison with NaN is false.\<close>

definition date_gt :: "int option \<Rightarrow> int \<Rightarrow> bool" where
  "date_gt d now = (case d of None \<Rightarrow> False | Some t \<Rightarrow> now < t)"

text \<open>
  \<open>Date.UTC\<close> for a calendar date and a time of day (months counted from 1), by the
  days-from-civil computation; it names the time values of the ISO 8601 literals that
  occur below, such as \<open>new Date('2024-12-14T04:13:12Z')\<close>.
\<close>

definition daysFromCivil :: "int \<Rightarrow> int \<Rightarrow> int \<Rightarrow> int" where
  "daysFromCivil y m d =
     (let y' = (if m \<le> 2 then y - 1 else y);
          era = y' div 400;
          yoe = y' - era * 400;
          doy = (153 * (if m > 2 then m - 3 else m + 9) + 2) div 5 + d - 1;
          doe = yoe * 365 + yoe div 4 - yoe div 100 + doy
      in era * 146097 + doe - 719468)"

definition utc :: "int \<Rightarrow> int \<Rightarrow> int \<Rightarrow> int \<Rightarrow> int \<Rightarrow> int \<Rightarrow> int" where
  "utc y mo d h mi s = MakeDate (daysFromCivil y mo d) (MakeTime h mi s 0)"

subsection \<open>Strings\<close>

text \<open>\<open>s.split(c)\<close> for a one-character separator: never the empty array.\<close>

fun split :: "char \<Rightarrow> string \<Rightarrow> string list" where
  "split c [] = [[]]"
| "split c (x # xs) =
     (if x = c then [] # split c xs
      else (case split c xs of [] \<Rightarrow> [[x]] | p # ps \<Rightarrow> (x # p) # ps))"

definition isDigit :: "char \<Rightarrow> bool" where
  "isDigit c \<longleftrightarrow> (48::nat) \<le> of_char c \<and> (of_char c :: nat) \<le> 57"

definition digitValue :: "char \<Rightarrow> int" where
  "digitValue c = int (of_char c) - 48"

text \<open>
  \<open>Number(s)\<close> on a string of decimal digits (the empty string is 0); \<open>None\<close> is NaN.
  Only digit strings are read: the other numeric literals of JavaScript (signs, blanks,
  exponents, hexadecimal) cannot occur in a time that the schema's pattern admits.
\<close>

definition Number :: "string \<Rightarrow> int option" where
  "Number s =
     (if list_all isDigit s then Some (foldl (\<lambda>n c. 10 * n + digitValue c) 0 s)
      else None)"

text \<open>
  \<open>a < b\<close> on two strings: lexicographic on the code units. This is also how a string is
  compared with an object literal: the comparison first takes the primitive value of each
  operand, for a plain object its \<open>valueOf()\<close> (the object itself, no primitive) and then
  its \<open>toString()\<close>, the string \<open>[object Object]\<close>; with two strings in hand it compares
  them as strings.
\<close>

fun stringLess :: "string \<Rightarrow> string \<Rightarrow> bool" where
  "stringLess [] [] = False"
| "stringLess [] (y # ys) = True"
| "stringLess (x # xs) [] = False"
| "stringLess (x # xs) (y # ys) =
     (if (of_char x :: nat) < of_char y then True
      else if (of_char y :: nat) < of_char x then False
      else stringLess xs ys)"

definition objectLiteral :: string where
  "objectLiteral = ''[object Object]''"

text \<open>
  \<open>s.trim()\<close>, of JavaScript and of the validator alike, strips the white space and the
  line terminators at both ends. Of the code units a \<open>char\<close> can hold these are the blank,
  TAB, LF, VT, FF, CR and the no-break space U+00A0; the others (U+FEFF, U+2028 and the
  like) lie beyond the type.
\<close>

definition isSpace :: "char \<Rightarrow> bool" where
  "isSpace c \<longleftrightarrow>
     c \<in> set [CHR '' '', CHR 0x09, CHR 0x0A, CHR 0x0B, CHR 0x0C, CHR 0x0D, CHR 0xA0]"

definition trim :: "string \<Rightarrow> string" where
  "trim s = rev (dropWhile isSpace (rev (dropWhile isSpace s)))"

text \<open>
  \<open>String(n).padStart(2, '0')\<close> for \<open>n < 100\<close>, as the handlers write hours and minutes.
\<close>

definition digitChar :: "nat \<Rightarrow> char" where
  "digitChar d = ''0123456789'' ! d"

definition padStart2 :: "nat \<Rightarrow> string" where
  "padStart2 n = [digitChar (n div 10), digitChar (n mod 10)]"

section \<open>The data model\<close>

type_synonym oid = nat

record registration =
  user :: oid
  registeredAt :: int

text \<open>
  The schema's \<open>capacity\<close> is a \<open>Number\<close> with \<open>min: 1\<close> and no integer validator: its finite
  values are rationals, whole or not. The events routes admit whole capacities only
  (\<open>isInt\<close>), the admin routes any.
\<close>

record event =
  title :: string
  description :: string
  date :: int
  time :: string
  location :: string
  type :: string
  capacity :: rat
  creator :: oid
  registrations :: "registration list"

text \<open>The pattern of the schema's \<open>time\<close> path: \<open>/^([0-1]?[0-9]|2[0-3]):[0-5][0-9]$/\<close>.\<close>

definition inRange :: "char \<Rightarrow> char \<Rightarrow> char \<Rightarrow> bool" where
  "inRange lo hi c \<longleftrightarrow> (of_char lo :: nat) \<le> of_char c \<and> (of_char c :: nat) \<le> of_char hi"

fun timePattern :: "string \<Rightarrow> bool" where
  "timePattern [h, c, m1, m2] =
     (isDigit h \<and> c = CHR '':'' \<and> inRange CHR ''0'' CHR ''5'' m1 \<and> isDigit m2)"
| "timePattern [h1, h2, c, m1, m2] =
     (((inRange CHR ''0'' CHR ''1'' h1 \<and> isDigit h2) \<or> (h1 = CHR ''2'' \<and> inRange CHR ''0'' CHR ''3'' h2))
      \<and> c = CHR '':'' \<and> inRange CHR ''0'' CHR ''5'' m1 \<and> isDigit m2)"
| "timePattern _ = False"

definition eventTypes :: "string list" where
  "eventTypes = [''Academic'', ''Social'', ''Sports'', ''Cultural'', ''Workshop'', ''Conference'']"

subsection \<open>The virtuals of the event schema\<close>

definition isFull :: "event \<Rightarrow> bool" where
  "isFull e \<longleftrightarrow> of_nat (length (registrations e)) \<ge> capacity e"


text \<open>\<open>xs.splice(i, 1)\<close>: the array without its element at index \<open>i\<close>.\<close>

definition splice1 :: "nat \<Rightarrow> 'a list \<Rightarrow> 'a list" where
  "splice1 i xs = take i xs @ drop (Suc i) xs"

section \<open>The time resolver of the event listing\<close>

text \<open>
  The filter of \<open>GET /\<close> builds \<open>eventDateTime\<close> from the stored date and the two numbers
  read from \<open>event.time.split(':')\<close>, and keeps the event when \<open>eventDateTime > now\<close>;
  \<open>isUpcoming\<close> is the value of that comparison. What the filter does before it compares
  is part of the listing, \<open>listUpcoming\<close> below.
\<close>

definition eventDateTime :: "event \<Rightarrow> int option" where
  "eventDateTime e =
     (case map Number (split CHR '':'' (time e)) of
        [] \<Rightarrow> None
      | [hours] \<Rightarrow> setUTCHours (date e) hours None
      | hours # minutes # _ \<Rightarrow> setUTCHours (date e) hours minutes)"

definition isUpcoming :: "event \<Rightarrow> int \<Rightarrow> bool" where
  "isUpcoming e now = date_gt (eventDateTime e) now"

section \<open>The document store\<close>

text \<open>
  Modelled from the spec: the User model (\<open>models/User\<close>) is not among the sources. A user
  has a role (\<open>user\<close> or \<open>admin\<close>), the event types of its preferences and the ids of the
  events it is registered for; saving a user document succeeds.
\<close>

datatype role = RoleUser | RoleAdmin

record user =
  role :: role
  preferences :: "string list"
  registeredEvents :: "oid list"

text \<open>
  A collection is an association list from \<open>_id\<close> to document, in insertion order;
  \<open>findById\<close> is \<open>map_of\<close>, writing a document back is \<open>AList.update\<close>, removing it is
  \<open>AList.delete\<close>.
\<close>

record store =
  events :: "(oid \<times> event) list"
  users :: "(oid \<times> user) list"

datatype error =
    NotFound
  | PreferenceMismatch
  | AlreadyRegistered
  | EventFull
  | NotRegistered
  | EventAlreadyStarted
  | CapacityInvariantViolated
  | ValidationFailed
  | ServerError

datatype response = Success | Failure error

text \<open>
  The validators that \<open>event.save()\<close> runs: the required strings are not empty, the time
  matches its pattern, the type is one of the enum, the capacity is at least 1. The paths
  \<open>date\<close>, \<open>creator\<close> and \<open>registrations.user\<close> are required too and are present by type.
\<close>

definition schemaValid :: "event \<Rightarrow> bool" where
  "schemaValid e \<longleftrightarrow>
     title e \<noteq> [] \<and> description e \<noteq> [] \<and> time e \<noteq> [] \<and> timePattern (time e) \<and>
     location e \<noteq> [] \<and> type e \<in> set eventTypes \<and> 1 \<le> capacity e"

text \<open>
  A request body for an event: each path of the schema is present or absent.
  A date is given by the time value its ISO 8601 string denotes.
\<close>

record body =
  b_title :: "string option"
  b_description :: "string option"
  b_date :: "int option"
  b_time :: "string option"
  b_location :: "string option"
  b_capacity :: "rat option"
  b_type :: "string option"
  b_creator :: "oid option"
  b_registrations :: "registration list option"

text \<open>The \<open>validateEvent\<close> chain of the events routes.\<close>

definition notEmptyTrimmed :: "string option \<Rightarrow> bool" where
  "notEmptyTrimmed f = (case f of None \<Rightarrow> False | Some s \<Rightarrow> trim s \<noteq> [])"

definition validateEvent :: "body \<Rightarrow> bool" where
  "validateEvent b \<longleftrightarrow>
     notEmptyTrimmed (b_title b) \<and>
     notEmptyTrimmed (b_description b) \<and>
     b_date b \<noteq> None \<and>
     (case b_time b of None \<Rightarrow> False | Some t \<Rightarrow> timePattern t) \<and>
     notEmptyTrimmed (b_location b) \<and>
     (case b_capacity b of None \<Rightarrow> False | Some c \<Rightarrow> c \<in> \<int> \<and> 1 \<le> c) \<and>
     (case b_type b of None \<Rightarrow> False | Some t \<Rightarrow> t \<in> set eventTypes)"

text \<open>
  \<open>Object.assign(event, req.body)\<close>: every path present in the body replaces the
  document's; the schema trims the title, the description and the location when set.
\<close>

definition assigned :: "'a option \<Rightarrow> 'a \<Rightarrow> 'a" where
  "assigned f old = (case f of None \<Rightarrow> old | Some v \<Rightarrow> v)"

definition assign :: "event \<Rightarrow> body \<Rightarrow> event" where
  "assign e b =
     \<lparr> title = assigned (map_option trim (b_title b)) (title e),
       description = assigned (map_option trim (b_description b)) (description e),
       date = assigned (b_date b) (date e),
       time = assigned (b_time b) (time e),
       location = assigned (map_option trim (b_location b)) (location e),
       type = assigned (b_type b) (type e),
       capacity = assigned (b_capacity b) (capacity e),
       creator = assigned (b_creator b) (creator e),
       registrations = assigned (b_registrations b) (registrations e) \<rparr>"

section \<open>The events routes\<close>

text \<open>
  The clock is a parameter: \<open>now\<close> is the time value that \<open>new Date()\<close> returns in the
  handler. A handler returns its response and the store it leaves.
\<close>

subsection \<open>The listing\<close>

text \<open>
  \<open>GET /\<close> takes its clock from a literal, \<open>new Date('2024-12-14T04:13:12Z')\<close>, and filters
  the events it has read. For each event the filter logs \<open>eventDateTime.toISOString()\<close>
  before it compares: on an Invalid Date that call throws a RangeError, and the handler
  answers 500. Otherwise it keeps the events with \<open>isUpcoming\<close> at the literal instant.
  Only this step of the handler is described here, not its query by type, its sorting or
  its pages.
\<close>

definition listingNow :: int where
  "listingNow = utc 2024 12 14 4 13 12"

definition listUpcoming :: "(oid \<times> event) list \<Rightarrow> error + (oid \<times> event) list" where
  "listUpcoming allEvents =
     (if list_ex (\<lambda>(i, e). eventDateTime e = None) allEvents then Inl ServerError
      else Inr (filter (\<lambda>(i, e). isUpcoming e listingNow) allEvents))"

subsection \<open>The started-event guard\<close>

text \<open>
  The condition shared by the three guarded handlers:
  \<^verbatim>\<open>event.date < now || (event.date.toISOString().split('T')[0] === now.toISOString().split('T')[0]
     && event.time < { $dateToString: { format: '%H:%M', date: now } })\<close>
  The date part of \<open>toISOString()\<close> is the UTC calendar date, one string for each UTC
  day; two of them are equal when the UTC days are.
\<close>

definition isoDate :: "int \<Rightarrow> int" where
  "isoDate t = Day t"

definition alreadyStarted :: "event \<Rightarrow> int \<Rightarrow> bool" where
  "alreadyStarted e now \<longleftrightarrow>
     date e < now \<or> (isoDate (date e) = isoDate now \<and> stringLess (time e) objectLiteral)"

subsection \<open>Update and delete (admin only)\<close>

definition updateEvent :: "store \<Rightarrow> oid \<Rightarrow> body \<Rightarrow> response \<times> store" where
  "updateEvent st eid b =
     (if \<not> validateEvent b then (Failure ValidationFailed, st)
      else (case map_of (events st) eid of
        None \<Rightarrow> (Failure NotFound, st)
      | Some e \<Rightarrow>
          if (case b_capacity b of None \<Rightarrow> False
              | Some c \<Rightarrow> c < of_nat (length (registrations e)))
          then (Failure CapacityInvariantViolated, st)
          else if schemaValid (assign e b)
          then (Success, st\<lparr>events := AList.update eid (assign e b) (events st)\<rparr>)
          else (Failure ServerError, st)))"

definition deleteEvent :: "store \<Rightarrow> oid \<Rightarrow> int \<Rightarrow> response \<times> store" where
  "deleteEvent st eid now =
     (case map_of (events st) eid of
        None \<Rightarrow> (Failure NotFound, st)
      | Some e \<Rightarrow>
          if alreadyStarted e now then (Failure EventAlreadyStarted, st)
          else (Success, st\<lparr>events := AList.delete eid (events st)\<rparr>))"

subsection \<open>Register and cancel\<close>

definition isRegistered :: "oid \<Rightarrow> event \<Rightarrow> bool" where
  "isRegistered uid e = list_ex (\<lambda>reg. user reg = uid) (registrations e)"

fun findIndex :: "('a \<Rightarrow> bool) \<Rightarrow> 'a list \<Rightarrow> nat option" where
  "findIndex p [] = None"
| "findIndex p (x # xs) = (if p x then Some 0 else map_option Suc (findIndex p xs))"

text \<open>\<open>User.findByIdAndUpdate(uid, { $pull: { registeredEvents: eid } })\<close>\<close>

definition pullRegisteredEvent :: "oid \<Rightarrow> oid \<Rightarrow> (oid \<times> user) list \<Rightarrow> (oid \<times> user) list" where
  "pullRegisteredEvent uid eid us =
     (case map_of us uid of
        None \<Rightarrow> us
      | Some u \<Rightarrow>
          AList.update uid (u\<lparr>registeredEvents := filter (\<lambda>x. x \<noteq> eid) (registeredEvents u)\<rparr>) us)"

definition registerForEvent :: "store \<Rightarrow> oid \<Rightarrow> oid \<Rightarrow> int \<Rightarrow> response \<times> store" where
  "registerForEvent st eid uid now =
     (case map_of (events st) eid of
        None \<Rightarrow> (Failure NotFound, st)
      | Some e \<Rightarrow>
          (case map_of (users st) uid of
             None \<Rightarrow> (Failure ServerError, st)
           | Some u \<Rightarrow>
               if type e \<notin> set (preferences u) then (Failure PreferenceMismatch, st)
               else if isRegistered uid e then (Failure AlreadyRegistered, st)
               else if of_nat (length (registrations e)) \<ge> capacity e
               then (Failure EventFull, st)
               else
                 (let e' = e\<lparr>registrations :=
                             registrations e @ [\<lparr>user = uid, registeredAt = now\<rparr>]\<rparr>;
                      u' = u\<lparr>registeredEvents := registeredEvents u @ [eid]\<rparr>
                  in if schemaValid e'
                     then (Success, \<lparr>events = AList.update eid e' (events st),
                                     users = AList.update uid u' (users st)\<rparr>)
                     else (Failure ServerError, st))))"

definition cancelRegistration :: "store \<Rightarrow> oid \<Rightarrow> oid \<Rightarrow> int \<Rightarrow> response \<times> store" where
  "cancelRegistration st eid uid now =
     (case map_of (events st) eid of
        None \<Rightarrow> (Failure NotFound, st)
      | Some e \<Rightarrow>
          if alreadyStarted e now then (Failure EventAlreadyStarted, st)
          else
            (case findIndex (\<lambda>reg. user reg = uid) (registrations e) of
               None \<Rightarrow> (Failure NotRegistered, st)
             | Some registrationIndex \<Rightarrow>
                 (let e' = e\<lparr>registrations := splice1 registrationIndex (registrations e)\<rparr>
                  in if schemaValid e'
                     then (Success, \<lparr>events = AList.update eid e' (events st),
                                     users = pullRegisteredEvent uid eid (users st)\<rparr>)
                     else (Failure ServerError, st))))"

text \<open>
  The admin's cancel of the events routes, \<open>DELETE /:eventId/registrations/:userId\<close>:
  the same steps for the user id of the path.
\<close>

definition cancelRegistrationFor :: "store \<Rightarrow> oid \<Rightarrow> oid \<Rightarrow> int \<Rightarrow> response \<times> store" where
  "cancelRegistrationFor st eventId userId now =
     (case map_of (events st) eventId of
        None \<Rightarrow> (Failure NotFound, st)
      | Some e \<Rightarrow>
          if alreadyStarted e now then (Failure EventAlreadyStarted, st)
          else
            (case findIndex (\<lambda>reg. user reg = userId) (registrations e) of
               None \<Rightarrow> (Failure NotRegistered, st)
             | Some registrationIndex \<Rightarrow>
                 (let e' = e\<lparr>registrations := splice1 registrationIndex (registrations e)\<rparr>
                  in if schemaValid e'
                     then (Success, \<lparr>events = AList.update eventId e' (events st),
                                     users = pullRegisteredEvent userId eventId (users st)\<rparr>)
                     else (Failure ServerError, st))))"

section \<open>The admin routes\<close>

text \<open>
  \<open>PUT /events/:id\<close>: no validation chain and no capacity check; a validation error of
  \<open>save\<close> is answered with status 400.
\<close>

definition adminUpdateEvent :: "store \<Rightarrow> oid \<Rightarrow> body \<Rightarrow> response \<times> store" where
  "adminUpdateEvent st eid b =
     (case map_of (events st) eid of
        None \<Rightarrow> (Failure NotFound, st)
      | Some e \<Rightarrow>
          if schemaValid (assign e b)
          then (Success, st\<lparr>events := AList.update eid (assign e b) (events st)\<rparr>)
          else (Failure ValidationFailed, st))"

text \<open>\<open>DELETE /events/:id\<close>: \<open>findByIdAndDelete\<close>, with no look at the clock.\<close>

definition adminDeleteEvent :: "store \<Rightarrow> oid \<Rightarrow> response \<times> store" where
  "adminDeleteEvent st eid =
     (case map_of (events st) eid of
        None \<Rightarrow> (Failure NotFound, st)
      | Some e \<Rightarrow> (Success, st\<lparr>events := AList.delete eid (events st)\<rparr>))"

text \<open>
  \<open>DELETE /events/:eventId/registrations/:userId\<close>: the registration is spliced out and
  the event saved; \<open>availableSeats\<close> is no path of the schema and is not stored; the
  user documents are not written.
\<close>

definition adminCancelRegistration :: "store \<Rightarrow> oid \<Rightarrow> oid \<Rightarrow> response \<times> store" where
  "adminCancelRegistration st eventId userId =
     (case map_of (events st) eventId of
        None \<Rightarrow> (Failure NotFound, st)
      | Some e \<Rightarrow>
          (case findIndex (\<lambda>reg. user reg = userId) (registrations e) of
             None \<Rightarrow> (Failure NotRegistered, st)
           | Some registrationIndex \<Rightarrow>
               (let e' = e\<lparr>registrations := splice1 registrationIndex (registrations e)\<rparr>
                in if schemaValid e'
                   then (Success, st\<lparr>events := AList.update eventId e' (events st)\<rparr>)
                   else (Failure ServerError, st))))"

subsection \<open>The dashboard\<close>

text \<open>
  \<open>$group\<close> with \<open>_id: '$eventType'\<close> and \<open>count: { $sum: 1 }\<close>: one group for each value of
  the key, with the number of documents that have it; a document without the path falls
  in the group of \<open>null\<close> (\<open>None\<close>). The event schema has no path \<open>eventType\<close> (the type of
  an event is its path \<open>type\<close>), so no stored event has one.
\<close>

definition bump :: "('k \<times> nat) list \<Rightarrow> 'k \<Rightarrow> ('k \<times> nat) list" where
  "bump groups k =
     (case map_of groups k of
        None \<Rightarrow> groups @ [(k, 1)]
      | Some n \<Rightarrow> AList.update k (Suc n) groups)"

definition groupCount :: "'k list \<Rightarrow> ('k \<times> nat) list" where
  "groupCount ks = foldl bump [] ks"

definition eventType :: "event \<Rightarrow> string option" where
  "eventType e = None"

record dashboard =
  totalUsers :: nat
  totalEvents :: nat
  upcomingEvents :: nat
  eventsByType :: "(string option \<times> nat) list"

definition adminDashboard :: "store \<Rightarrow> int \<Rightarrow> dashboard" where
  "adminDashboard st now =
     \<lparr> totalUsers = length (filter (\<lambda>(i, u). role u = RoleUser) (users st)),
       totalEvents = length (events st),
       upcomingEvents = length (filter (\<lambda>(i, e). date e \<ge> now) (events st)),
       eventsByType = groupCount (map (\<lambda>(i, e). eventType e) (events st)) \<rparr>"

section \<open>Requests in sequence\<close>

text \<open>
  The server mounts the events routes under \<open>/api/events\<close> and the admin routes under
  \<open>/api/admin\<close>; a request names its handler and carries the ids of its path, the
  authenticated user where the handler reads it, and its body.
\<close>

datatype request =
    Register oid oid
  | Cancel oid oid
  | CancelFor oid oid
  | Update oid body
  | Delete oid
  | AdminUpdate oid body
  | AdminDelete oid
  | AdminCancel oid oid

fun handle :: "store \<Rightarrow> int \<Rightarrow> request \<Rightarrow> response \<times> store" where
  "handle st now (Register eid uid) = registerForEvent st eid uid now"
| "handle st now (Cancel eid uid) = cancelRegistration st eid uid now"
| "handle st now (CancelFor eid uid) = cancelRegistrationFor st eid uid now"
| "handle st now (Update eid b) = updateEvent st eid b"
| "handle st now (Delete eid) = deleteEvent st eid now"
| "handle st now (AdminUpdate eid b) = adminUpdateEvent st eid b"
| "handle st now (AdminDelete eid) = adminDeleteEvent st eid"
| "handle st now (AdminCancel eid uid) = adminCancelRegistration st eid uid"

text \<open>A run of requests, each with the clock at its arrival; the responses are dropped.\<close>

fun run :: "store \<Rightarrow> (int \<times> request) list \<Rightarrow> store" where
  "run st [] = st"
| "run st ((now, r) # rs) = run (snd (handle st now r)) rs"

definition capacityInvariant :: "store \<Rightarrow> bool" where
  "capacityInvariant st =
     list_all (\<lambda>(i, e). of_nat (length (registrations e)) \<le> capacity e) (events st)"

text \<open>Every stored capacity is a whole number.\<close>

definition wholeCapacities :: "store \<Rightarrow> bool" where
  "wholeCapacities st = list_all (\<lambda>(i, e). capacity e \<in> \<int>) (events st)"

definition storeInvariant :: "store \<Rightarrow> bool" where
  "storeInvariant st \<longleftrightarrow> capacityInvariant st \<and> wholeCapacities st"

text \<open>
  The requests that reach a handler with the capacity guard, or one that leaves capacity
  and registrations as they are or shorter: all but the admin routes' update, and the
  events routes' update when its body carries no \<open>registrations\<close>.
\<close>

fun guarded :: "request \<Rightarrow> bool" where
  "guarded (AdminUpdate eid b) = False"
| "guarded (Update eid b) = (b_registrations b = None)"
| "guarded r = True"

section \<open>Example data\<close>

definition talk :: event where
  "talk = \<lparr> title = ''Talk'', description = ''A talk'', date = utc 2024 6 1 0 0 0,
            time = ''23:30'', location = ''Hall'', type = ''Academic'', capacity = 3,
            creator = 100, registrations = [] \<rparr>"

definition social :: event where
  "social = \<lparr> title = ''Mixer'', description = ''A mixer'', date = utc 2024 6 1 0 0 0,
              time = ''18:00'', location = ''Lobby'', type = ''Social'', capacity = 20,
              creator = 100, registrations = [] \<rparr>"

definition alice :: user where
  "alice = \<lparr> role = RoleUser, preferences = [''Academic''], registeredEvents = [] \<rparr>"

definition bob :: user where
  "bob = \<lparr> role = RoleUser, preferences = [''Sports'', ''Academic''], registeredEvents = [] \<rparr>"

definition root :: user where
  "root = \<lparr> role = RoleAdmin, preferences = [], registeredEvents = [] \<rparr>"

definition store0 :: store where
  "store0 = \<lparr> events = [(10, talk)], users = [(1, alice), (2, bob), (100, root)] \<rparr>"

text \<open>The body of an update that changes the capacity only.\<close>

definition capacityBody :: "rat \<Rightarrow> body" where
  "capacityBody c =
     \<lparr> b_title = None, b_description = None, b_date = None, b_time = None,
       b_location = None, b_capacity = Some c, b_type = None, b_creator = None,
       b_registrations = None \<rparr>"

text \<open>The body of an update that repeats every validated path of an event, with a new capacity.\<close>

definition fullBody :: "event \<Rightarrow> rat \<Rightarrow> body" where
  "fullBody e c =
     \<lparr> b_title = Some (title e), b_description = Some (description e),
       b_date = Some (date e), b_time = Some (time e), b_location = Some (location e),
       b_capacity = Some c, b_type = Some (type e), b_creator = None,
       b_registrations = None \<rparr>"

text \<open>The talk with the users 1 and 2 registered on 2024-05-20, and the store holding it.\<close>

definition booked :: event where
  "booked = talk\<lparr>registrations :=
     [\<lparr>user = 1, registeredAt = utc 2024 5 20 12 0 0\<rparr>,
      \<lparr>user = 2, registeredAt = utc 2024 5 20 12 0 0\<rparr>]\<rparr>"

definition store2 :: store where
  "store2 = \<lparr> events = [(10, booked)],
              users = [(1, alice\<lparr>registeredEvents := [10]\<rparr>),
                       (2, bob\<lparr>registeredEvents := [10]\<rparr>), (100, root)] \<rparr>"

text \<open>The talk with three registrations: as many as its capacity.\<close>

definition soldOut :: event where
  "soldOut = talk\<lparr>registrations :=
     [\<lparr>user = 1, registeredAt = utc 2024 5 20 12 0 0\<rparr>,
      \<lparr>user = 2, registeredAt = utc 2024 5 20 12 0 0\<rparr>,
      \<lparr>user = 3, registeredAt = utc 2024 5 21 9 0 0\<rparr>]\<rparr>"

text \<open>The store after user 1 has registered for the talk on 2024-05-20.\<close>

definition store1 :: store where
  "store1 = \<lparr> events = [(10, talk\<lparr>registrations :=
                          [\<lparr>user = 1, registeredAt = utc 2024 5 20 12 0 0\<rparr>]\<rparr>)],
              users = [(1, alice\<lparr>registeredEvents := [10]\<rparr>), (2, bob), (100, root)] \<rparr>"

text \<open>A store whose only event is sold out, with a user 4 who is not registered.\<close>

definition fullStore :: store where
  "fullStore = \<lparr> events = [(10, soldOut)], users = [(4, alice)] \<rparr>"

text \<open>
  The booked talk with a stored date that carries a time of day, noon of 2024-06-01, and
  the store holding it.
\<close>

definition lateTalk :: event where
  "lateTalk = booked\<lparr>date := utc 2024 6 1 12 0 0\<rparr>"

definition lateStore :: store where
  "lateStore = store2\<lparr>events := [(10, lateTalk)]\<rparr>"

text \<open>A store with two events of different types, both on 2024-06-01.\<close>

definition storeD :: store where
  "storeD = \<lparr> events = [(10, talk), (11, social)],
              users = [(1, alice), (2, bob), (100, root)] \<rparr>"

section \<open>Unfolding rules\<close>

lemmas time_defs = utc_def daysFromCivil_def MakeDate_def MakeTime_def msPerDay_def msPerHour_def
  msPerMinute_def msPerSecond_def Day_def TimeClip_def

lemmas ex_defs = talk_def social_def alice_def bob_def root_def store0_def capacityBody_def
  fullBody_def booked_def store2_def soldOut_def

lemmas handler_defs = registerForEvent_def cancelRegistration_def cancelRegistrationFor_def
  updateEvent_def deleteEvent_def adminUpdateEvent_def adminDeleteEvent_def
  adminCancelRegistration_def

lemmas check_defs = schemaValid_def validateEvent_def notEmptyTrimmed_def trim_def isSpace_def
  eventTypes_def isDigit_def inRange_def assign_def assigned_def isRegistered_def
  alreadyStarted_def isoDate_def objectLiteral_def splice1_def pullRegisteredEvent_def

section \<open>Reading a stored time\<close>

lemma of_char_digitChar: "d < 10 \<Longrightarrow> of_char (digitChar d) = 48 + d"
proof -
  assume "d < 10"
  hence "d = 0 \<or> d = 1 \<or> d = 2 \<or> d = 3 \<or> d = 4 \<or> d = 5 \<or> d = 6 \<or> d = 7 \<or> d = 8 \<or> d = 9"
    by arith
  thus ?thesis
    by (elim disjE) (simp_all add: digitChar_def)
qed

lemma digit_char:
  "d < 10 \<Longrightarrow>
   isDigit (digitChar d) \<and> digitValue (digitChar d) = int d \<and> digitChar d \<noteq> CHR '':''"
proof -
  assume d: "d < 10"
  note a = of_char_digitChar[OF d]
  have "(of_char (digitChar d) :: nat) \<noteq> of_char CHR '':''" using d a by simp
  hence "digitChar d \<noteq> CHR '':''" by metis
  thus ?thesis using a d by (simp add: isDigit_def digitValue_def)
qed

lemma Number_padStart2: "n < 100 \<Longrightarrow> Number (padStart2 n) = Some (int n)"
proof -
  assume "n < 100"
  hence "n div 10 < 10" "n mod 10 < 10" by auto
  from digit_char[OF this(1)] digit_char[OF this(2)]
  have "Number (padStart2 n) = Some (10 * int (n div 10) + int (n mod 10))"
    by (simp add: Number_def padStart2_def)
  also have "10 * int (n div 10) + int (n mod 10) = int n"
    by (simp add: zdiv_int zmod_int)
  finally show ?thesis .
qed

lemma split_time:
  "n < 100 \<Longrightarrow> m < 100 \<Longrightarrow>
   split CHR '':'' (padStart2 n @ '':'' @ padStart2 m) = [padStart2 n, padStart2 m]"
proof -
  assume "n < 100" "m < 100"
  hence "n div 10 < 10" "n mod 10 < 10" "m div 10 < 10" "m mod 10 < 10" by auto
  from digit_char[OF this(1)] digit_char[OF this(2)] digit_char[OF this(3)]
    digit_char[OF this(4)]
  show ?thesis
    by (simp add: padStart2_def)
qed

lemma eventDateTime_hhmm:
  "h < 24 \<Longrightarrow> m < 60 \<Longrightarrow> time e = padStart2 h @ '':'' @ padStart2 m \<Longrightarrow>
   eventDateTime e = TimeClip (Day (date e) * msPerDay + int h * msPerHour + int m * msPerMinute)"
  using split_time[of h m] Number_padStart2[of h] Number_padStart2[of m]
  by (simp add: eventDateTime_def setUTCHours_def MakeDate_def MakeTime_def add.assoc)

lemma timePattern_hhmm:
  "h < 24 \<Longrightarrow> m < 60 \<Longrightarrow> timePattern (padStart2 h @ '':'' @ padStart2 m)"
proof -
  assume hm: "h < 24" "m < 60"
  hence b: "h div 10 < 10" "h mod 10 < 10" "m div 10 < 10" "m mod 10 < 10" by auto
  have m1: "inRange CHR ''0'' CHR ''5'' (digitChar (m div 10))"
    using hm of_char_digitChar[OF b(3)] by (simp add: inRange_def)
  have h12: "(inRange CHR ''0'' CHR ''1'' (digitChar (h div 10)) \<and> isDigit (digitChar (h mod 10)))
     \<or> (digitChar (h div 10) = CHR ''2'' \<and> inRange CHR ''0'' CHR ''3'' (digitChar (h mod 10)))"
  proof (cases "h < 20")
    case True
    hence "h div 10 \<le> 1" by simp
    thus ?thesis using of_char_digitChar[OF b(1)] digit_char[OF b(2)] by (simp add: inRange_def)
  next
    case False
    hence "h div 10 = 2" "h mod 10 \<le> 3" using hm by arith+
    thus ?thesis using of_char_digitChar[OF b(2)] by (simp add: inRange_def digitChar_def)
  qed
  show ?thesis using m1 h12 digit_char[OF b(4)] by (simp add: padStart2_def)
qed

lemma upcoming_iff: "isUpcoming e now \<longleftrightarrow> (\<exists>t. eventDateTime e = Some t \<and> now < t)"
  by (simp add: isUpcoming_def date_gt_def split: option.splits)

lemma talk_instant:
  "date e = utc 2024 6 1 0 0 0 \<Longrightarrow> time e = ''23:30'' \<Longrightarrow>
   eventDateTime e = Some (utc 2024 6 1 23 30 0)"
  by (simp add: eventDateTime_def Number_def isDigit_def digitValue_def setUTCHours_def time_defs)

text \<open>
  Claim C4. The instant of an event is the UTC day of its stored date with the hours and
  minutes of its \<open>HH:MM\<close> time, seconds and milliseconds zero; an event is upcoming exactly
  when that instant is strictly after \<open>now\<close>, so an event that starts at \<open>now\<close> is not
  upcoming. The event of 2024-06-01 at 23:30 is upcoming at 2024-06-01T23:00:00Z and not
  upcoming at 2024-06-02T00:00:00Z.
\<close>

theorem time_resolver:
  "(isUpcoming e now \<longleftrightarrow> (\<exists>t. eventDateTime e = Some t \<and> now < t))
   \<and> (eventDateTime e = Some now \<longrightarrow> \<not> isUpcoming e now)
   \<and> (\<forall>h m. h < 24 \<and> m < 60 \<and> time e = padStart2 h @ '':'' @ padStart2 m \<longrightarrow>
         timePattern (time e) \<and>
         eventDateTime e =
           TimeClip (Day (date e) * msPerDay + int h * msPerHour + int m * msPerMinute))
   \<and> (date e = utc 2024 6 1 0 0 0 \<and> time e = ''23:30'' \<longrightarrow>
         eventDateTime e = Some (utc 2024 6 1 23 30 0)
         \<and> isUpcoming e (utc 2024 6 1 23 0 0)
         \<and> \<not> isUpcoming e (utc 2024 6 2 0 0 0))"
proof (intro conjI allI impI)
  show "isUpcoming e now \<longleftrightarrow> (\<exists>t. eventDateTime e = Some t \<and> now < t)"
    by (rule upcoming_iff)
next
  assume "eventDateTime e = Some now"
  thus "\<not> isUpcoming e now" by (simp add: upcoming_iff)
next
  fix h m assume a: "h < 24 \<and> m < 60 \<and> time e = padStart2 h @ '':'' @ padStart2 m"
  thus "timePattern (time e)" using timePattern_hhmm[of h m] by simp
  from a show "eventDateTime e =
           TimeClip (Day (date e) * msPerDay + int h * msPerHour + int m * msPerMinute)"
    using eventDateTime_hhmm[of h m e] by simp
next
  assume a: "date e = utc 2024 6 1 0 0 0 \<and> time e = ''23:30''"
  hence i: "eventDateTime e = Some (utc 2024 6 1 23 30 0)" using talk_instant by simp
  thus "eventDateTime e = Some (utc 2024 6 1 23 30 0)" .
  from i show "isUpcoming e (utc 2024 6 1 23 0 0)" by (simp add: upcoming_iff time_defs)
  from i show "\<not> isUpcoming e (utc 2024 6 2 0 0 0)" by (simp add: upcoming_iff time_defs)
qed

theorem time_resolver_witness:
  "date talk = utc 2024 6 1 0 0 0 \<and> time talk = ''23:30''
   \<and> (23::nat) < 24 \<and> (30::nat) < 60 \<and> time talk = padStart2 23 @ '':'' @ padStart2 30
   \<and> timePattern (time talk)
   \<and> eventDateTime talk = Some 1717284600000
   \<and> isUpcoming talk 1717282800000
   \<and> \<not> isUpcoming talk 1717286400000
   \<and> \<not> isUpcoming talk 1717284600000"
proof -
  have h: "date talk = utc 2024 6 1 0 0 0 \<and> time talk = ''23:30''"
    by (simp add: talk_def)
  have p: "(23::nat) < 24 \<and> (30::nat) < 60 \<and> time talk = padStart2 23 @ '':'' @ padStart2 30"
    by (simp add: talk_def padStart2_def digitChar_def)
  note t = time_resolver[of talk 1717284600000]
  from t h have "eventDateTime talk = Some (utc 2024 6 1 23 30 0)
         \<and> isUpcoming talk (utc 2024 6 1 23 0 0)
         \<and> \<not> isUpcoming talk (utc 2024 6 2 0 0 0)" by blast
  hence c: "eventDateTime talk = Some 1717284600000 \<and> isUpcoming talk 1717282800000
         \<and> \<not> isUpcoming talk 1717286400000" by (simp add: time_defs)
  from t p have tp: "timePattern (time talk)" by blast
  from t c have "\<not> isUpcoming talk 1717284600000" by blast
  with h p c tp show ?thesis by blast
qed

section \<open>The capacity ledger\<close>



section \<open>Registration\<close>

lemma schemaValid_registrations [simp]:
  "schemaValid (e\<lparr>registrations := r\<rparr>) = schemaValid e"
  by (simp add: schemaValid_def)

lemma register_result:
  "registerForEvent st eid uid now =
     (case map_of (events st) eid of
        None \<Rightarrow> (Failure NotFound, st)
      | Some e \<Rightarrow>
          (case map_of (users st) uid of
             None \<Rightarrow> (Failure ServerError, st)
           | Some u \<Rightarrow>
               if type e \<notin> set (preferences u) then (Failure PreferenceMismatch, st)
               else if isRegistered uid e then (Failure AlreadyRegistered, st)
               else if isFull e then (Failure EventFull, st)
               else if \<not> schemaValid e then (Failure ServerError, st)
               else (Success,
                  \<lparr>events = AList.update eid
                      (e\<lparr>registrations := registrations e @ [\<lparr>user = uid, registeredAt = now\<rparr>]\<rparr>)
                      (events st),
                    users = AList.update uid
                      (u\<lparr>registeredEvents := registeredEvents u @ [eid]\<rparr>) (users st)\<rparr>)))"
  by (simp add: registerForEvent_def isFull_def Let_def split: option.splits)

lemma isRegistered_append:
  "isRegistered uid (e\<lparr>registrations := registrations e @ [\<lparr>user = uid, registeredAt = now\<rparr>]\<rparr>)"
  by (simp add: isRegistered_def)

text \<open>
  Claim C2. For an authenticated user, \<open>registerForEvent\<close> answers the first failed check
  in the order NotFound, PreferenceMismatch, AlreadyRegistered, EventFull and leaves the
  store as it was; it succeeds only when the event exists, its type is among the user's
  preferences, the user is not registered and the event is not full, and then it appends
  one registration to the event and the event id to the user's \<open>registeredEvents\<close>. The
  same call once more fails with AlreadyRegistered and changes nothing.
\<close>

theorem registerForEvent_contract:
  assumes u: "map_of (users st) uid = Some u"
  shows
  "(map_of (events st) eid = None \<longrightarrow>
      registerForEvent st eid uid now = (Failure NotFound, st))
   \<and> (\<forall>e. map_of (events st) eid = Some e \<longrightarrow>
        (type e \<notin> set (preferences u) \<longrightarrow>
           registerForEvent st eid uid now = (Failure PreferenceMismatch, st))
      \<and> (type e \<in> set (preferences u) \<and> isRegistered uid e \<longrightarrow>
           registerForEvent st eid uid now = (Failure AlreadyRegistered, st))
      \<and> (type e \<in> set (preferences u) \<and> \<not> isRegistered uid e \<and> isFull e \<longrightarrow>
           registerForEvent st eid uid now = (Failure EventFull, st))
      \<and> (type e \<in> set (preferences u) \<and> \<not> isRegistered uid e \<and> \<not> isFull e \<and> schemaValid e \<longrightarrow>
           registerForEvent st eid uid now =
             (Success,
              \<lparr>events = AList.update eid
                  (e\<lparr>registrations := registrations e @ [\<lparr>user = uid, registeredAt = now\<rparr>]\<rparr>)
                  (events st),
                users = AList.update uid
                  (u\<lparr>registeredEvents := registeredEvents u @ [eid]\<rparr>) (users st)\<rparr>)))
   \<and> (fst (registerForEvent st eid uid now) = Success \<longrightarrow>
        (\<exists>e. map_of (events st) eid = Some e \<and> type e \<in> set (preferences u)
             \<and> \<not> isRegistered uid e \<and> \<not> isFull e))
   \<and> (fst (registerForEvent st eid uid now) \<noteq> Success \<longrightarrow>
        snd (registerForEvent st eid uid now) = st)
   \<and> (\<forall>st'. registerForEvent st eid uid now = (Success, st') \<longrightarrow>
        registerForEvent st' eid uid later = (Failure AlreadyRegistered, st'))"
proof (intro conjI allI impI)
  fix st' assume s: "registerForEvent st eid uid now = (Success, st')"
  then obtain e where e: "map_of (events st) eid = Some e"
    by (auto simp: register_result split: option.splits)
  let ?e' = "e\<lparr>registrations := registrations e @ [\<lparr>user = uid, registeredAt = now\<rparr>]\<rparr>"
  let ?u' = "u\<lparr>registeredEvents := registeredEvents u @ [eid]\<rparr>"
  from s e u have p: "type e \<in> set (preferences u)"
    and st': "st' = \<lparr>events = AList.update eid ?e' (events st), users = AList.update uid ?u' (users st)\<rparr>"
    by (auto simp: register_result split: if_splits)
  have "map_of (events st') eid = Some ?e'" "map_of (users st') uid = Some ?u'"
    by (simp_all add: st' update_conv')
  thus "registerForEvent st' eid uid later = (Failure AlreadyRegistered, st')"
    using p isRegistered_append[of uid e now] by (simp add: register_result)
qed (insert u, auto simp: register_result split: option.splits if_splits)

lemma schemaValid_talk: "schemaValid talk"
  by (simp add: schemaValid_def talk_def eventTypes_def isDigit_def inRange_def)

theorem registerForEvent_contract_witness:
  "map_of (users store0) 1 = Some alice
   \<and> map_of (events store0) 10 = Some talk
   \<and> type talk \<in> set (preferences alice) \<and> \<not> isRegistered 1 talk \<and> \<not> isFull talk
   \<and> schemaValid talk
   \<and> registerForEvent store0 10 1 (utc 2024 5 20 12 0 0) = (Success, store1)
   \<and> registerForEvent store1 10 1 (utc 2024 5 21 8 0 0) = (Failure AlreadyRegistered, store1)
   \<and> map_of (events store0) 11 = None
   \<and> registerForEvent store0 11 1 (utc 2024 5 20 12 0 0) = (Failure NotFound, store0)
   \<and> map_of (users store0) 100 = Some root \<and> type talk \<notin> set (preferences root)
   \<and> registerForEvent store0 10 100 (utc 2024 5 20 12 0 0) = (Failure PreferenceMismatch, store0)
   \<and> map_of (users fullStore) 4 = Some alice \<and> map_of (events fullStore) 10 = Some soldOut
   \<and> type soldOut \<in> set (preferences alice) \<and> \<not> isRegistered 4 soldOut \<and> isFull soldOut
   \<and> registerForEvent fullStore 10 4 (utc 2024 5 22 8 0 0) = (Failure EventFull, fullStore)"
proof -
  have u: "map_of (users store0) 1 = Some alice" by (simp add: store0_def)
  have e: "map_of (events store0) 10 = Some talk" by (simp add: store0_def)
  have n: "map_of (events store0) 11 = None" by (simp add: store0_def)
  have p: "type talk \<in> set (preferences alice) \<and> \<not> isRegistered 1 talk \<and> \<not> isFull talk"
    by (simp add: talk_def alice_def isRegistered_def isFull_def)
  have s: "\<lparr>events = AList.update 10
                  (talk\<lparr>registrations := registrations talk @
                     [\<lparr>user = 1, registeredAt = utc 2024 5 20 12 0 0\<rparr>]\<rparr>)
                  (events store0),
                users = AList.update 1
                  (alice\<lparr>registeredEvents := registeredEvents alice @ [10]\<rparr>) (users store0)\<rparr>
           = store1"
    by (simp add: store0_def store1_def talk_def alice_def)
  note c = registerForEvent_contract[OF u, of 10 "utc 2024 5 20 12 0 0" "utc 2024 5 21 8 0 0"]
  note found = c[THEN conjunct2, THEN conjunct1, THEN spec, THEN mp, OF e]
  note succeeds = found[THEN conjunct2, THEN conjunct2, THEN conjunct2, THEN mp]
  note again = c[THEN conjunct2, THEN conjunct2, THEN conjunct2, THEN conjunct2, THEN spec, THEN mp]
  have "type talk \<in> set (preferences alice) \<and> \<not> isRegistered 1 talk \<and> \<not> isFull talk
        \<and> schemaValid talk"
    using p schemaValid_talk by (intro conjI) (elim conjE, assumption)+
  from succeeds[OF this]
  have r1: "registerForEvent store0 10 1 (utc 2024 5 20 12 0 0) = (Success, store1)"
    by (simp only: s)
  from again[OF r1]
  have r2: "registerForEvent store1 10 1 (utc 2024 5 21 8 0 0) = (Failure AlreadyRegistered, store1)" .
  from registerForEvent_contract[OF u, of 11 "utc 2024 5 20 12 0 0", THEN conjunct1, THEN mp, OF n]
  have r3: "registerForEvent store0 11 1 (utc 2024 5 20 12 0 0) = (Failure NotFound, store0)" .
  have ur: "map_of (users store0) 100 = Some root" by (simp add: store0_def)
  have pr: "type talk \<notin> set (preferences root)" by (simp add: root_def)
  from registerForEvent_contract[OF ur, of 10 "utc 2024 5 20 12 0 0", THEN conjunct2,
      THEN conjunct1, THEN spec, THEN mp, OF e, THEN conjunct1, THEN mp, OF pr]
  have r4: "registerForEvent store0 10 100 (utc 2024 5 20 12 0 0)
              = (Failure PreferenceMismatch, store0)" .
  have uf: "map_of (users fullStore) 4 = Some alice"
    and ef: "map_of (events fullStore) 10 = Some soldOut"
    by (simp_all add: fullStore_def)
  have pf: "type soldOut \<in> set (preferences alice)" and rf: "\<not> isRegistered 4 soldOut"
    and ff: "isFull soldOut"
    by (simp_all add: soldOut_def talk_def alice_def isRegistered_def isFull_def)
  from registerForEvent_contract[OF uf, of 10 "utc 2024 5 22 8 0 0", THEN conjunct2,
      THEN conjunct1, THEN spec, THEN mp, OF ef, THEN conjunct2, THEN conjunct2,
      THEN conjunct1, THEN mp, OF conjI, OF pf conjI, OF rf ff]
  have r5: "registerForEvent fullStore 10 4 (utc 2024 5 22 8 0 0) = (Failure EventFull, fullStore)" .
  show ?thesis
    by (intro conjI) (rule u e schemaValid_talk r1 r2 n r3 p[THEN conjunct1]
        p[THEN conjunct2, THEN conjunct1] p[THEN conjunct2, THEN conjunct2]
        ur pr r4 uf ef pf rf ff r5)+
qed

text \<open>
  Claim C9. \<open>registerForEvent\<close> does not look at the clock: for a stored event that
  matches the user's preferences, has no registration of the user and is not full, it
  succeeds at every \<open>now\<close>, also after the instant of the event, and stores the
  registration with the event and the event id with the user.
\<close>

theorem register_without_time_window:
  assumes "map_of (events st) eid = Some e"
    and "map_of (users st) uid = Some u"
    and "schemaValid e"
    and "type e \<in> set (preferences u)"
    and "\<not> isRegistered uid e"
    and "\<not> isFull e"
  shows "registerForEvent st eid uid now =
           (Success,
            \<lparr>events = AList.update eid
                (e\<lparr>registrations := registrations e @ [\<lparr>user = uid, registeredAt = now\<rparr>]\<rparr>)
                (events st),
              users = AList.update uid
                (u\<lparr>registeredEvents := registeredEvents u @ [eid]\<rparr>) (users st)\<rparr>)"
  using assms by (simp add: register_result)

theorem register_without_time_window_witness:
  "map_of (events store0) 10 = Some talk \<and> map_of (users store0) 2 = Some bob
   \<and> schemaValid talk \<and> type talk \<in> set (preferences bob)
   \<and> \<not> isRegistered 2 talk \<and> \<not> isFull talk
   \<and> eventDateTime talk = Some (utc 2024 6 1 23 30 0)
   \<and> \<not> isUpcoming talk (utc 2024 7 1 9 0 0)
   \<and> registerForEvent store0 10 2 (utc 2024 7 1 9 0 0)
       = (Success,
          \<lparr>events = [(10, talk\<lparr>registrations :=
                        [\<lparr>user = 2, registeredAt = utc 2024 7 1 9 0 0\<rparr>]\<rparr>)],
            users = [(1, alice), (2, bob\<lparr>registeredEvents := [10]\<rparr>), (100, root)]\<rparr>)"
proof -
  have e: "map_of (events store0) 10 = Some talk" and u: "map_of (users store0) 2 = Some bob"
    by (simp_all add: store0_def)
  have p: "type talk \<in> set (preferences bob)" and r: "\<not> isRegistered 2 talk"
    and f: "\<not> isFull talk"
    by (simp_all add: talk_def bob_def isRegistered_def isFull_def)
  have i: "eventDateTime talk = Some (utc 2024 6 1 23 30 0)"
    by (rule talk_instant) (simp_all add: talk_def)
  hence past: "\<not> isUpcoming talk (utc 2024 7 1 9 0 0)"
    by (simp add: upcoming_iff time_defs)
  have s: "\<lparr>events = AList.update 10
              (talk\<lparr>registrations := registrations talk @
                 [\<lparr>user = 2, registeredAt = utc 2024 7 1 9 0 0\<rparr>]\<rparr>)
              (events store0),
            users = AList.update 2
              (bob\<lparr>registeredEvents := registeredEvents bob @ [10]\<rparr>) (users store0)\<rparr>
         = \<lparr>events = [(10, talk\<lparr>registrations :=
                        [\<lparr>user = 2, registeredAt = utc 2024 7 1 9 0 0\<rparr>]\<rparr>)],
            users = [(1, alice), (2, bob\<lparr>registeredEvents := [10]\<rparr>), (100, root)]\<rparr>"
    by (simp add: store0_def talk_def bob_def)
  from register_without_time_window[OF e u schemaValid_talk p r f, of "utc 2024 7 1 9 0 0"]
  have w: "registerForEvent store0 10 2 (utc 2024 7 1 9 0 0)
       = (Success,
          \<lparr>events = [(10, talk\<lparr>registrations :=
                        [\<lparr>user = 2, registeredAt = utc 2024 7 1 9 0 0\<rparr>]\<rparr>)],
            users = [(1, alice), (2, bob\<lparr>registeredEvents := [10]\<rparr>), (100, root)]\<rparr>)"
    by (simp only: s)
  show ?thesis
    by (intro conjI) (rule e u schemaValid_talk p r f i past w)+
qed

section \<open>The started-event guard\<close>

lemma stringLess_time: "timePattern t \<Longrightarrow> stringLess t objectLiteral"
  by (erule timePattern.elims) (auto simp: objectLiteral_def isDigit_def inRange_def)

lemma same_or_earlier_day:
  "(a < b \<or> Day a = Day b) \<longleftrightarrow> Day a \<le> Day b"
proof
  assume "a < b \<or> Day a = Day b"
  thus "Day a \<le> Day b"
    by (auto simp: Day_def msPerDay_def intro: zdiv_mono1)
next
  assume le: "Day a \<le> Day b"
  show "a < b \<or> Day a = Day b"
  proof (cases "a < b")
    case False
    hence "Day b \<le> Day a" by (simp add: Day_def msPerDay_def zdiv_mono1)
    with le show ?thesis by simp
  qed simp
qed

lemma alreadyStarted_days:
  "timePattern (time e) \<Longrightarrow> alreadyStarted e now \<longleftrightarrow> Day (date e) \<le> Day now"
  using same_or_earlier_day[of "date e" now]
  by (simp add: alreadyStarted_def isoDate_def stringLess_time)

text \<open>
  With a time that the schema's pattern admits, the comparison with the object literal is
  true, and the guard is a comparison of UTC days: it rejects when the day of the stored
  date is the day of \<open>now\<close> or an earlier one, and lets the event through when it is a
  later one, whatever the time of day.
\<close>

lemma started_guard_days:
  assumes "timePattern (time e)"
  shows "stringLess (time e) objectLiteral"
    and "alreadyStarted e now \<longleftrightarrow> Day (date e) \<le> Day now"
  using assms by (simp_all add: stringLess_time alreadyStarted_days)

text \<open>
  Claim C10. The guards of \<open>deleteEvent\<close>, \<open>cancelRegistration\<close> and the admin's cancel of
  the events routes are to tell whether the event has started. Their same-day branch
  compares the time string with an object literal; the claim takes that comparison for
  false and the guard for one that never rejects an event whose stored date is not before
  \<open>now\<close>. The stored date of \<open>lateTalk\<close>, noon of 2024-06-01, is not before 10:00 of that
  day and its instant, 23:30, is ahead; the comparison is true, the guard holds, and the
  three handlers answer EventAlreadyStarted and leave the store. The talk itself, stored
  at midnight of 2024-06-01, is rejected at 10:00 of its day by the first comparison
  alone, whether its time is 23:30 or the 09:00 that has passed.
\<close>

theorem started_guard_same_day:
  "\<not> date lateTalk < utc 2024 6 1 10 0 0
   \<and> eventDateTime lateTalk = Some (utc 2024 6 1 23 30 0)
   \<and> isUpcoming lateTalk (utc 2024 6 1 10 0 0)
   \<and> stringLess (time lateTalk) objectLiteral
   \<and> alreadyStarted lateTalk (utc 2024 6 1 10 0 0)
   \<and> map_of (events lateStore) 10 = Some lateTalk
   \<and> isRegistered 1 lateTalk
   \<and> deleteEvent lateStore 10 (utc 2024 6 1 10 0 0) = (Failure EventAlreadyStarted, lateStore)
   \<and> cancelRegistration lateStore 10 1 (utc 2024 6 1 10 0 0)
       = (Failure EventAlreadyStarted, lateStore)
   \<and> cancelRegistrationFor lateStore 10 1 (utc 2024 6 1 10 0 0)
       = (Failure EventAlreadyStarted, lateStore)
   \<and> isoDate (date talk) = isoDate (utc 2024 6 1 10 0 0)
   \<and> alreadyStarted talk (utc 2024 6 1 10 0 0)
   \<and> alreadyStarted (talk\<lparr>time := ''09:00''\<rparr>) (utc 2024 6 1 10 0 0)"
proof -
  have d: "\<not> date lateTalk < utc 2024 6 1 10 0 0"
    by (simp add: lateTalk_def booked_def talk_def time_defs)
  have i: "eventDateTime lateTalk = Some (utc 2024 6 1 23 30 0)"
    by (simp add: lateTalk_def booked_def talk_def eventDateTime_def Number_def isDigit_def
        digitValue_def setUTCHours_def time_defs)
  hence up: "isUpcoming lateTalk (utc 2024 6 1 10 0 0)"
    by (simp add: upcoming_iff time_defs)
  have l: "stringLess (time lateTalk) objectLiteral"
    by (simp add: lateTalk_def booked_def talk_def objectLiteral_def)
  have a: "alreadyStarted lateTalk (utc 2024 6 1 10 0 0)"
    by (simp add: lateTalk_def booked_def talk_def alreadyStarted_def isoDate_def
        objectLiteral_def time_defs)
  have e: "map_of (events lateStore) 10 = Some lateTalk"
    by (simp add: lateStore_def)
  have r: "isRegistered 1 lateTalk"
    by (simp add: lateTalk_def booked_def isRegistered_def)
  have h: "deleteEvent lateStore 10 (utc 2024 6 1 10 0 0) = (Failure EventAlreadyStarted, lateStore)"
    "cancelRegistration lateStore 10 1 (utc 2024 6 1 10 0 0)
       = (Failure EventAlreadyStarted, lateStore)"
    "cancelRegistrationFor lateStore 10 1 (utc 2024 6 1 10 0 0)
       = (Failure EventAlreadyStarted, lateStore)"
    using e a by (simp_all add: deleteEvent_def cancelRegistration_def cancelRegistrationFor_def)
  have t: "isoDate (date talk) = isoDate (utc 2024 6 1 10 0 0)"
    "alreadyStarted talk (utc 2024 6 1 10 0 0)"
    "alreadyStarted (talk\<lparr>time := ''09:00''\<rparr>) (utc 2024 6 1 10 0 0)"
    by (simp_all add: talk_def alreadyStarted_def isoDate_def time_defs)
  show ?thesis
    by (intro conjI) (rule d i up l a e r h t)+
qed

text \<open>
  When the guard lets an event through, the stored date lies on a later UTC day than
  \<open>now\<close>, and so does the instant of the event: the guarded handlers never act on an
  event that has started.
\<close>

lemma digit_facts:
  "isDigit c \<Longrightarrow> c \<noteq> CHR '':'' \<and> 0 \<le> digitValue c"
  by (auto simp: isDigit_def digitValue_def)

lemma timePattern_digits:
  assumes "timePattern t"
  shows "(\<exists>h m1 m2. t = [h, CHR '':'', m1, m2] \<and> isDigit h \<and> isDigit m1 \<and> isDigit m2)
       \<or> (\<exists>h1 h2 m1 m2. t = [h1, h2, CHR '':'', m1, m2] \<and> isDigit h1 \<and> isDigit h2
              \<and> isDigit m1 \<and> isDigit m2)"
  using assms
  by (rule timePattern.elims(2)) (auto simp: inRange_def isDigit_def)

lemma timePattern_parse:
  assumes "timePattern t"
  shows "\<exists>h m. 0 \<le> h \<and> 0 \<le> m \<and> map Number (split CHR '':'' t) = [Some h, Some m]"
proof -
  from timePattern_digits[OF assms] show ?thesis
  proof (elim disjE exE conjE)
    fix h m1 m2
    assume t: "t = [h, CHR '':'', m1, m2]" and d: "isDigit h" "isDigit m1" "isDigit m2"
    from d[THEN digit_facts] d show ?thesis
      by (simp add: t Number_def)
  next
    fix h1 h2 m1 m2
    assume t: "t = [h1, h2, CHR '':'', m1, m2]"
      and d: "isDigit h1" "isDigit h2" "isDigit m1" "isDigit m2"
    from d[THEN digit_facts] d show ?thesis
      by (simp add: t Number_def)
  qed
qed

lemma before_next_day: "now < (Day now + 1) * msPerDay"
proof -
  have "now = Day now * 86400000 + now mod 86400000"
    by (simp add: Day_def msPerDay_def)
  moreover have "now mod 86400000 < 86400000" by simp
  ultimately show ?thesis by (simp add: msPerDay_def algebra_simps)
qed

lemma TimeClip_valid: "TimeClip x \<noteq> None \<Longrightarrow> TimeClip x = Some x"
  by (cases "\<bar>x\<bar> \<le> 8640000000000000") (simp_all add: TimeClip_def)

lemma eventDateTime_parsed:
  assumes "map Number (split CHR '':'' (time e)) = [Some h, Some m]"
    and "eventDateTime e \<noteq> None"
  shows "eventDateTime e = Some (Day (date e) * msPerDay + (h * msPerHour + m * msPerMinute))"
proof -
  have "eventDateTime e = TimeClip (Day (date e) * msPerDay + (h * msPerHour + m * msPerMinute))"
    using assms(1) by (simp add: eventDateTime_def setUTCHours_def MakeDate_def MakeTime_def)
  with assms(2) TimeClip_valid show ?thesis by simp
qed

lemma not_started_upcoming:
  assumes "timePattern (time e)" and "\<not> alreadyStarted e now" and "eventDateTime e \<noteq> None"
  shows "isUpcoming e now"
proof -
  from timePattern_parse[OF assms(1)] obtain h m where
    hm: "0 \<le> h" "0 \<le> m" "map Number (split CHR '':'' (time e)) = [Some h, Some m]"
    by (elim exE conjE)
  define r where "r = h * msPerHour + m * msPerMinute"
  from eventDateTime_parsed[OF hm(3) assms(3)]
  have i: "eventDateTime e = Some (Day (date e) * msPerDay + r)"
    by (simp add: r_def)
  have r: "0 \<le> r"
    using hm by (simp add: r_def msPerHour_def msPerMinute_def)
  from assms(1,2) have "Day now + 1 \<le> Day (date e)"
    by (simp add: alreadyStarted_days)
  hence "(Day now + 1) * msPerDay \<le> Day (date e) * msPerDay"
    by (simp add: msPerDay_def)
  with before_next_day[of now] r have "now < Day (date e) * msPerDay + r"
    by linarith
  with i show ?thesis by (simp add: upcoming_iff)
qed

section \<open>Update\<close>

text \<open>
  The update of the events routes has the capacity guard, behind its validation chain.
\<close>

lemma updateEvent_capacity_guard:
  assumes "validateEvent b" and "map_of (events st) eid = Some e"
    and "b_capacity b = Some c" and "c < of_nat (length (registrations e))"
  shows "updateEvent st eid b = (Failure CapacityInvariantViolated, st)"
  using assms by (simp add: updateEvent_def)

lemma updateEvent_invalid_body:
  "\<not> validateEvent b \<Longrightarrow> updateEvent st eid b = (Failure ValidationFailed, st)"
  by (simp add: updateEvent_def)

text \<open>
  Claim C5. An update with a capacity below the number of registrations is to fail with
  CapacityInvariantViolated on every update path. The update of the admin routes does
  not: for the talk with capacity 3 and 2 registrations and the body \<open>{capacity: 1}\<close> it
  succeeds and stores capacity 1, where the update of the events routes refuses the same
  change.
\<close>

theorem admin_update_below_registrations:
  "map_of (events store2) 10 = Some booked
   \<and> capacity booked = 3 \<and> length (registrations booked) = 2
   \<and> adminUpdateEvent store2 10 (capacityBody 1)
       = (Success, store2\<lparr>events := [(10, booked\<lparr>capacity := 1\<rparr>)]\<rparr>)
   \<and> updateEvent store2 10 (fullBody booked 1) = (Failure CapacityInvariantViolated, store2)"
  by (simp add: handler_defs check_defs ex_defs)

section \<open>The capacity invariant\<close>

text \<open>
  Where every stored capacity is a whole number, every handler but the admin routes'
  update keeps \<open>len(registrations) \<le> capacity\<close> and the capacities whole, the events
  routes' update as long as its body carries no \<open>registrations\<close>.
\<close>

lemma list_all_update:
  "list_all P al \<Longrightarrow> P (k, v) \<Longrightarrow> list_all P (AList.update k v al)"
  by (induction al) auto

lemma list_all_delete:
  "list_all P al \<Longrightarrow> list_all P (AList.delete k al)"
  by (induction al) auto

lemma invariant_lookup:
  "storeInvariant st \<Longrightarrow> map_of (events st) k = Some e \<Longrightarrow>
   of_nat (length (registrations e)) \<le> capacity e \<and> capacity e \<in> \<int>"
  by (auto simp: storeInvariant_def capacityInvariant_def wholeCapacities_def list_all_iff
      dest: map_of_SomeD)

lemma invariant_update:
  "storeInvariant st \<Longrightarrow> of_nat (length (registrations e)) \<le> capacity e \<Longrightarrow>
   capacity e \<in> \<int> \<Longrightarrow> events st' = AList.update k e (events st) \<Longrightarrow> storeInvariant st'"
  by (simp add: storeInvariant_def capacityInvariant_def wholeCapacities_def list_all_update)

lemma invariant_delete:
  "storeInvariant st \<Longrightarrow> events st' = AList.delete k (events st) \<Longrightarrow> storeInvariant st'"
  by (simp add: storeInvariant_def capacityInvariant_def wholeCapacities_def list_all_delete)

lemma length_splice1: "length (splice1 i xs) \<le> length xs"
  by (simp add: splice1_def)

lemma one_more_fits:
  fixes c :: rat
  assumes "c \<in> \<int>" and "\<not> of_nat n \<ge> c"
  shows "of_nat (Suc n) \<le> c"
proof -
  from assms(1) obtain k :: int where k: "c = of_int k"
    by (rule Ints_cases)
  from assms(2) have "(of_int (int n) :: rat) < of_int k"
    by (simp add: k)
  hence "int n < k" by (simp only: of_int_less_iff)
  hence "int (Suc n) \<le> k" by simp
  hence "(of_int (int (Suc n)) :: rat) \<le> of_int k" by (simp only: of_int_le_iff)
  thus ?thesis by (simp add: k)
qed

lemma register_invariant:
  assumes "storeInvariant st"
  shows "storeInvariant (snd (registerForEvent st eid uid now))"
proof (cases "fst (registerForEvent st eid uid now) = Success")
  case False
  thus ?thesis using assms
    by (auto simp: register_result split: option.splits if_splits)
next
  case True
  then obtain e u where e: "map_of (events st) eid = Some e"
    and f: "\<not> isFull e"
    and r: "events (snd (registerForEvent st eid uid now)) =
              AList.update eid
                (e\<lparr>registrations := registrations e @ [\<lparr>user = uid, registeredAt = now\<rparr>]\<rparr>)
                (events st)"
    by (auto simp: register_result split: option.splits if_splits)
  from invariant_lookup[OF assms e] have w: "capacity e \<in> \<int>"
    by simp
  from f have "\<not> of_nat (length (registrations e)) \<ge> capacity e"
    by (simp add: isFull_def)
  from one_more_fits[OF w this]
  have "of_nat (length (registrations
            (e\<lparr>registrations := registrations e @ [\<lparr>user = uid, registeredAt = now\<rparr>]\<rparr>)))
          \<le> capacity (e\<lparr>registrations := registrations e @ [\<lparr>user = uid, registeredAt = now\<rparr>]\<rparr>)"
    by simp
  from invariant_update[OF assms this _ r] w show ?thesis by simp
qed

lemma invariant_shrink:
  assumes "events st' = AList.update k (e\<lparr>registrations := rs\<rparr>) (events st)"
    and "storeInvariant st" and "map_of (events st) k = Some e"
    and "length rs \<le> length (registrations e)"
  shows "storeInvariant st'"
proof -
  from invariant_lookup[OF assms(2,3)]
  have a: "of_nat (length (registrations e)) \<le> capacity e" and w: "capacity e \<in> \<int>"
    by simp_all
  have "(of_nat (length rs) :: rat) \<le> of_nat (length (registrations e))"
    using assms(4) by (simp only: of_nat_le_iff)
  with a have "of_nat (length (registrations (e\<lparr>registrations := rs\<rparr>)))
                 \<le> capacity (e\<lparr>registrations := rs\<rparr>)"
    by simp
  from invariant_update[OF assms(2) this _ assms(1)] w show ?thesis by simp
qed

lemma cancel_invariant:
  assumes "storeInvariant st"
  shows "storeInvariant (snd (cancelRegistration st eid uid now))"
    and "storeInvariant (snd (cancelRegistrationFor st eid uid now))"
    and "storeInvariant (snd (adminCancelRegistration st eid uid))"
  using assms
  by (auto simp: cancelRegistration_def cancelRegistrationFor_def adminCancelRegistration_def
      Let_def length_splice1 split: option.splits
      intro!: invariant_shrink[where st = st and k = eid])

lemma update_invariant:
  "storeInvariant st \<Longrightarrow> b_registrations b = None \<Longrightarrow>
   storeInvariant (snd (updateEvent st eid b))"
  by (auto simp: updateEvent_def assign_def assigned_def validateEvent_def
      split: option.splits intro!: invariant_update[where st = st and k = eid])

lemma delete_invariant:
  "storeInvariant st \<Longrightarrow> storeInvariant (snd (deleteEvent st eid now))"
  "storeInvariant st \<Longrightarrow> storeInvariant (snd (adminDeleteEvent st eid))"
  by (auto simp: deleteEvent_def adminDeleteEvent_def split: option.splits
      intro!: invariant_delete[where st = st and k = eid])

lemma guarded_invariant:
  "guarded r \<Longrightarrow> storeInvariant st \<Longrightarrow> storeInvariant (snd (handle st now r))"
  by (cases r) (simp_all add: register_invariant cancel_invariant update_invariant delete_invariant)

lemma run_guarded_invariant:
  "list_all (\<lambda>(now, r). guarded r) rs \<Longrightarrow> capacityInvariant st \<Longrightarrow> wholeCapacities st \<Longrightarrow>
   capacityInvariant (run st rs)"
proof -
  have "storeInvariant (run st rs)"
    if "list_all (\<lambda>(now, r). guarded r) rs" and "storeInvariant st"
    using that by (induction rs arbitrary: st) (auto simp: guarded_invariant)
  thus "list_all (\<lambda>(now, r). guarded r) rs \<Longrightarrow> capacityInvariant st \<Longrightarrow> wholeCapacities st \<Longrightarrow>
   capacityInvariant (run st rs)"
    by (simp add: storeInvariant_def)
qed

text \<open>
  A capacity that is not whole, which only the admin routes' update lets in, breaks the
  invariant through the register handler itself: with capacity 3/2 and one registration
  the event is not full, and the second registration is stored.
\<close>

lemma fractional_capacity_register:
  "capacityInvariant (run store1 [(utc 2024 5 22 9 0 0, AdminUpdate 10 (capacityBody (3 / 2)))])
   \<and> \<not> capacityInvariant (run store1
         [(utc 2024 5 22 9 0 0, AdminUpdate 10 (capacityBody (3 / 2))),
          (utc 2024 5 23 9 0 0, Register 10 2)])"
  by (simp add: handler_defs check_defs ex_defs store1_def capacityInvariant_def)

text \<open>
  Claim C1. \<open>len(registrations) \<le> capacity\<close> is to hold after every successful register,
  cancel and update. It holds in \<open>store0\<close> and after two registrations, and is lost by the
  admin routes' update to capacity 1; it is also lost by an update of the events routes
  whose body carries a \<open>registrations\<close> array longer than its capacity.
\<close>

theorem capacity_invariant_broken:
  "capacityInvariant store0
   \<and> run store0 [(utc 2024 5 20 12 0 0, Register 10 1), (utc 2024 5 20 12 0 0, Register 10 2)]
       = store2
   \<and> capacityInvariant store2
   \<and> run store2 [(utc 2024 5 22 9 0 0, AdminUpdate 10 (capacityBody 1))]
       = store2\<lparr>events := [(10, booked\<lparr>capacity := 1\<rparr>)]\<rparr>
   \<and> \<not> capacityInvariant (run store2 [(utc 2024 5 22 9 0 0, AdminUpdate 10 (capacityBody 1))])
   \<and> \<not> capacityInvariant (run store0
         [(utc 2024 5 22 9 0 0,
           Update 10 ((fullBody talk 1)\<lparr>b_registrations := Some (registrations booked)\<rparr>))])"
  by (simp add: handler_defs check_defs ex_defs capacityInvariant_def)

section \<open>Delete\<close>

text \<open>The delete of the events routes removes upcoming events only.\<close>

lemma deleteEvent_only_upcoming:
  assumes "fst (deleteEvent st eid now) = Success"
    and "map_of (events st) eid = Some e"
    and "timePattern (time e)" and "eventDateTime e \<noteq> None"
  shows "isUpcoming e now"
proof -
  from assms(1,2) have "\<not> alreadyStarted e now"
    by (simp add: deleteEvent_def split: if_splits)
  with assms(3,4) show ?thesis by (simp add: not_started_upcoming)
qed

text \<open>
  Claim C6. A delete is to fail with EventAlreadyStarted exactly when the instant of the
  event is not in the future. The delete of the admin routes removes the talk of
  2024-06-01 23:30 whatever the clock says, so also a month later; the delete of the
  events routes refuses at 10:00 of 2024-06-01, when the talk is still upcoming.
\<close>

theorem delete_ignores_instant:
  "eventDateTime talk = Some (utc 2024 6 1 23 30 0)
   \<and> \<not> isUpcoming talk (utc 2024 7 1 9 0 0)
   \<and> adminDeleteEvent store0 10 = (Success, store0\<lparr>events := []\<rparr>)
   \<and> isUpcoming talk (utc 2024 6 1 10 0 0)
   \<and> deleteEvent store0 10 (utc 2024 6 1 10 0 0) = (Failure EventAlreadyStarted, store0)"
proof -
  have i: "eventDateTime talk = Some (utc 2024 6 1 23 30 0)"
    by (rule talk_instant) (simp_all add: talk_def)
  have "\<not> isUpcoming talk (utc 2024 7 1 9 0 0)" "isUpcoming talk (utc 2024 6 1 10 0 0)"
    using i by (simp_all add: upcoming_iff time_defs)
  moreover have "adminDeleteEvent store0 10 = (Success, store0\<lparr>events := []\<rparr>)"
    by (simp add: adminDeleteEvent_def store0_def)
  moreover have "deleteEvent store0 10 (utc 2024 6 1 10 0 0) = (Failure EventAlreadyStarted, store0)"
    by (simp add: deleteEvent_def alreadyStarted_def store0_def talk_def time_defs)
  ultimately show ?thesis using i by simp
qed

section \<open>Cancel\<close>

text \<open>
  The two cancels of the events routes succeed only for a registered user and an upcoming
  event.
\<close>

lemma findIndex_None: "findIndex p xs = None \<longleftrightarrow> \<not> list_ex p xs"
  by (induction xs) auto

lemma cancel_only_registered_upcoming:
  assumes "map_of (events st) eid = Some e" and "eventDateTime e \<noteq> None"
  shows "fst (cancelRegistration st eid uid now) = Success \<Longrightarrow>
           isRegistered uid e \<and> isUpcoming e now"
    and "fst (cancelRegistrationFor st eid uid now) = Success \<Longrightarrow>
           isRegistered uid e \<and> isUpcoming e now"
proof -
  have *: "isRegistered uid e \<and> isUpcoming e now"
    if a: "\<not> alreadyStarted e now" and v: "schemaValid e"
      and i: "findIndex (\<lambda>reg. user reg = uid) (registrations e) \<noteq> None"
  proof -
    from v have "timePattern (time e)" by (simp add: schemaValid_def)
    with a assms(2) have "isUpcoming e now" by (simp add: not_started_upcoming)
    moreover from i have "isRegistered uid e"
      by (simp add: findIndex_None isRegistered_def)
    ultimately show ?thesis by simp
  qed
  show "fst (cancelRegistration st eid uid now) = Success \<Longrightarrow>
           isRegistered uid e \<and> isUpcoming e now"
    using assms(1) *
    by (auto simp: cancelRegistration_def Let_def split: if_splits option.splits)
  show "fst (cancelRegistrationFor st eid uid now) = Success \<Longrightarrow>
           isRegistered uid e \<and> isUpcoming e now"
    using assms(1) *
    by (auto simp: cancelRegistrationFor_def Let_def split: if_splits option.splits)
qed

text \<open>
  The two cancels of the events routes answer NotRegistered for a user without a
  registration, once the started-event guard has let the event through.
\<close>

lemma cancelRegistration_not_registered:
  assumes "map_of (events st) eid = Some e" and "\<not> alreadyStarted e now"
    and "\<not> isRegistered uid e"
  shows "cancelRegistration st eid uid now = (Failure NotRegistered, st)"
    and "cancelRegistrationFor st eid uid now = (Failure NotRegistered, st)"
  using assms
  by (simp_all add: cancelRegistration_def cancelRegistrationFor_def isRegistered_def
      findIndex_None[symmetric])

text \<open>
  Claim C3. A cancel is to succeed only for an upcoming event and is to remove the event
  id from the target user's \<open>registeredEvents\<close>. The cancel of the admin routes succeeds
  for the talk a month after it took place and leaves the user's \<open>registeredEvents\<close> as
  they were; the admin's cancel of the events routes refuses at that time, and before the
  day of the event it removes both the registration and the event id.
\<close>

theorem admin_cancel_unguarded:
  "eventDateTime booked = Some (utc 2024 6 1 23 30 0)
   \<and> \<not> isUpcoming booked (utc 2024 7 1 9 0 0)
   \<and> map_of (users store2) 1 = Some (alice\<lparr>registeredEvents := [10]\<rparr>)
   \<and> adminCancelRegistration store2 10 1
       = (Success, store2\<lparr>events := [(10, booked\<lparr>registrations :=
                      [\<lparr>user = 2, registeredAt = utc 2024 5 20 12 0 0\<rparr>]\<rparr>)]\<rparr>)
   \<and> map_of (users (snd (adminCancelRegistration store2 10 1))) 1
       = Some (alice\<lparr>registeredEvents := [10]\<rparr>)
   \<and> cancelRegistrationFor store2 10 1 (utc 2024 7 1 9 0 0)
       = (Failure EventAlreadyStarted, store2)
   \<and> cancelRegistrationFor store2 10 1 (utc 2024 5 25 9 0 0)
       = (Success, \<lparr>events = [(10, booked\<lparr>registrations :=
                      [\<lparr>user = 2, registeredAt = utc 2024 5 20 12 0 0\<rparr>]\<rparr>)],
                    users = [(1, alice), (2, bob\<lparr>registeredEvents := [10]\<rparr>), (100, root)]\<rparr>)"
proof -
  have i: "eventDateTime booked = Some (utc 2024 6 1 23 30 0)"
    by (rule talk_instant) (simp_all add: booked_def talk_def)
  have p: "\<not> isUpcoming booked (utc 2024 7 1 9 0 0)"
    using i by (simp add: upcoming_iff time_defs)
  have u: "map_of (users store2) 1 = Some (alice\<lparr>registeredEvents := [10]\<rparr>)"
    by (simp add: store2_def)
  have a: "adminCancelRegistration store2 10 1
       = (Success, store2\<lparr>events := [(10, booked\<lparr>registrations :=
                      [\<lparr>user = 2, registeredAt = utc 2024 5 20 12 0 0\<rparr>]\<rparr>)]\<rparr>)"
    by (simp add: adminCancelRegistration_def check_defs ex_defs)
  have a': "map_of (users (snd (adminCancelRegistration store2 10 1))) 1
       = Some (alice\<lparr>registeredEvents := [10]\<rparr>)"
    unfolding a by (simp add: store2_def)
  have c: "cancelRegistrationFor store2 10 1 (utc 2024 7 1 9 0 0)
       = (Failure EventAlreadyStarted, store2)"
    by (simp add: cancelRegistrationFor_def alreadyStarted_def ex_defs time_defs)
  have d: "cancelRegistrationFor store2 10 1 (utc 2024 5 25 9 0 0)
       = (Success, \<lparr>events = [(10, booked\<lparr>registrations :=
                      [\<lparr>user = 2, registeredAt = utc 2024 5 20 12 0 0\<rparr>]\<rparr>)],
                    users = [(1, alice), (2, bob\<lparr>registeredEvents := [10]\<rparr>), (100, root)]\<rparr>)"
    by (simp add: cancelRegistrationFor_def check_defs ex_defs time_defs)
  show ?thesis
    by (intro conjI) (rule i p u a a' c d)+
qed

section \<open>The dashboard\<close>

text \<open>On empty collections the dashboard is all zeros, with no group.\<close>

lemma adminDashboard_empty:
  "adminDashboard \<lparr>events = [], users = []\<rparr> now
     = \<lparr>totalUsers = 0, totalEvents = 0, upcomingEvents = 0, eventsByType = []\<rparr>"
  by (simp add: adminDashboard_def groupCount_def)

text \<open>
  Claim C8. The dashboard is to count the upcoming events by their resolved instant and
  the events of each type. At 10:00 of 2024-06-01, with an Academic and a Social event
  later that day and three users of which one is an admin, it reports no upcoming event,
  one group of two events under the key \<open>null\<close>, and two users.
\<close>

theorem dashboard_counts:
  "isUpcoming talk (utc 2024 6 1 10 0 0) \<and> isUpcoming social (utc 2024 6 1 10 0 0)
   \<and> type talk = ''Academic'' \<and> type social = ''Social''
   \<and> length (users storeD) = 3
   \<and> adminDashboard storeD (utc 2024 6 1 10 0 0)
       = \<lparr>totalUsers = 2, totalEvents = 2, upcomingEvents = 0, eventsByType = [(None, 2)]\<rparr>"
proof -
  have "eventDateTime talk = Some (utc 2024 6 1 23 30 0)"
    by (rule talk_instant) (simp_all add: talk_def)
  hence t: "isUpcoming talk (utc 2024 6 1 10 0 0)"
    by (simp add: upcoming_iff time_defs)
  have "eventDateTime social = Some (utc 2024 6 1 18 0 0)"
    by (simp add: social_def eventDateTime_def Number_def isDigit_def digitValue_def
        setUTCHours_def time_defs)
  hence s: "isUpcoming social (utc 2024 6 1 10 0 0)"
    by (simp add: upcoming_iff time_defs)
  have d: "adminDashboard storeD (utc 2024 6 1 10 0 0)
       = \<lparr>totalUsers = 2, totalEvents = 2, upcomingEvents = 0, eventsByType = [(None, 2)]\<rparr>"
    by (simp add: adminDashboard_def groupCount_def bump_def eventType_def storeD_def ex_defs
        time_defs)
  have y: "type talk = ''Academic''" "type social = ''Social''" "length (users storeD) = 3"
    by (simp_all add: talk_def social_def storeD_def)
  show ?thesis
    by (intro conjI) (rule t s d y)+
qed

end
